theory Spec2Isabelle
  imports Main "HOL-Library.Word"
begin

unbundle bit_operations_syntax

section \<open>The QEMU packet channel of RebbleOS (rcore/qemu.c)\<close>

text \<open>
  The receive side of \<^verbatim>\<open>qemu.c\<close> frames the byte stream of the emulated serial link:
  \<^verbatim>\<open>_qemu_thread\<close> drains the transport into the shared receive buffer and calls
  \<^verbatim>\<open>_qemu_handle_packet\<close>, which validates one frame at the front of that buffer,
  strips the wrapper and calls the protocol handler. \<^verbatim>\<open>qemu_send_data\<close> writes a
  frame out. Names of the C file are kept; a leading underscore is dropped.
\<close>

type_synonym byte = "8 word"
type_synonym uint16_t = "16 word"

subsection \<open>Constants and tables declared outside qemu.c\<close>

text \<open>
  \<^verbatim>\<open>qemu.h\<close>, \<^verbatim>\<open>protocol.h\<close> and the endpoint table are not part of the file; the
  signatures, the length cap, the protocol tag used by the send path and the table
  \<^verbatim>\<open>qemu_endpoints\<close> are parameters of the model. \<open>assert_enabled\<close> says whether
  \<^verbatim>\<open>assert\<close> is compiled in. A handler is identified by a number (its address);
  \<^verbatim>\<open>NULL\<close> is \<open>None\<close>.
\<close>

type_synonym EndpointHandler = nat

record qemu_config =
  QEMU_HEADER_SIGNATURE :: uint16_t
  QEMU_FOOTER_SIGNATURE :: uint16_t
  QEMU_MAX_DATA_LEN :: nat
  QemuProtocol_SPP :: uint16_t
  qemu_endpoints :: "(uint16_t \<times> EndpointHandler) list"
  assert_enabled :: bool

text \<open>
  The header is three 16-bit fields and the footer one (sizes 6 and 2, the wire format
  of the specification).
\<close>

record QemuCommChannelHeader =
  signature :: uint16_t
  protocol :: uint16_t
  len :: uint16_t

definition sizeof_QemuCommChannelHeader :: nat where
  "sizeof_QemuCommChannelHeader = 6"

definition sizeof_QemuCommChannelFooter :: nat where
  "sizeof_QemuCommChannelFooter = 2"

datatype packet_result =
  PACKET_PROCESSED | PACKET_MORE_DATA_REQD | PACKET_INVALID | PACKET_BUFFER_HAS_DATA

subsection \<open>Byte order\<close>

text \<open>
  The target is little-endian: a 16-bit object in memory is its low byte followed by
  its high byte. \<^verbatim>\<open>htons\<close> and \<^verbatim>\<open>ntohs\<close> swap the two bytes.
\<close>

definition htons :: "uint16_t \<Rightarrow> uint16_t" where
  "htons x = push_bit 8 x OR drop_bit 8 x"

definition ntohs :: "uint16_t \<Rightarrow> uint16_t" where
  "ntohs x = push_bit 8 x OR drop_bit 8 x"

definition store_u16 :: "uint16_t \<Rightarrow> byte list" where
  "store_u16 x = [ucast x, ucast (drop_bit 8 x)]"

definition load_u16 :: "byte list \<Rightarrow> nat \<Rightarrow> uint16_t" where
  "load_u16 buf i = ucast (buf ! i) OR push_bit 8 (ucast (buf ! (i + 1)))"

subsection \<open>The shared receive buffer and the dispatch table (protocol.c)\<close>

datatype log_msg =
    Invalid_header_signature uint16_t
  | Invalid_packet_size uint16_t
  | More_Data_Required uint16_t nat
  | Unknown_protocol uint16_t
  | Invalid_footer_signature uint16_t

text \<open>
  The state the receive path works on: the raw storage of the receive buffer (a fixed
  array, \<open>rx_buffer\<close>, whose length is the capacity), the number of bytes in use, the
  lines written by \<^verbatim>\<open>LOG_ERROR\<close> and \<^verbatim>\<open>LOG_INFO\<close> (the log level of the file is
  \<^verbatim>\<open>RBL_LOG_LEVEL_DEBUG\<close>, so both are emitted), and the handler calls made so far,
  each with the payload the packet carried.
\<close>

record rx_state =
  rx_buffer :: "byte list"
  rx_buf_used :: nat
  log :: "log_msg list"
  dispatched :: "(EndpointHandler \<times> byte list) list"

definition LOG :: "log_msg \<Rightarrow> rx_state \<Rightarrow> rx_state" where
  "LOG m st = st\<lparr>log := log st @ [m]\<rparr>"

text \<open>
  Modelled from the spec: the receive buffer's operations (\<^verbatim>\<open>protocol.c\<close> is not part
  of the sources). The specification lists them as append (which fails when the
  capacity is exceeded), reset, used-length, raw-pointer access and pointer-adjust,
  the last one changing only the used-length accounting. Reset discards the received
  bytes by setting the used-length to zero.
\<close>

definition protocol_get_rx_buffer :: "rx_state \<Rightarrow> byte list" where
  "protocol_get_rx_buffer st = rx_buffer st"

definition protocol_get_rx_buf_used :: "rx_state \<Rightarrow> nat" where
  "protocol_get_rx_buf_used st = rx_buf_used st"

definition protocol_rx_buffer_append :: "byte list \<Rightarrow> rx_state \<Rightarrow> int \<times> rx_state" where
  "protocol_rx_buffer_append data st =
     (if rx_buf_used st + length data > length (rx_buffer st) then (- 1, st)
      else (0, st\<lparr>rx_buffer := take (rx_buf_used st) (rx_buffer st) @ data @
                                   drop (rx_buf_used st + length data) (rx_buffer st),
                   rx_buf_used := rx_buf_used st + length data\<rparr>))"

definition protocol_rx_buffer_reset :: "rx_state \<Rightarrow> rx_state" where
  "protocol_rx_buffer_reset st = st\<lparr>rx_buf_used := 0\<rparr>"

definition protocol_rx_buffer_pointer_adjust :: "int \<Rightarrow> rx_state \<Rightarrow> rx_state" where
  "protocol_rx_buffer_pointer_adjust howmuch st =
     st\<lparr>rx_buf_used := nat (int (rx_buf_used st) + howmuch)\<rparr>"

text \<open>
  Modelled from the spec: \<^verbatim>\<open>dispatch.resolve(protocol_id) -> handler_or_none\<close>, a
  lookup of the protocol identifier in the endpoint table.
\<close>

fun protocol_find_endpoint_handler ::
  "uint16_t \<Rightarrow> (uint16_t \<times> EndpointHandler) list \<Rightarrow> EndpointHandler option" where
  "protocol_find_endpoint_handler p [] = None"
| "protocol_find_endpoint_handler p ((e, h) # es) =
     (if e = p then Some h else protocol_find_endpoint_handler p es)"

text \<open>
  Modelled from the spec: \<^verbatim>\<open>packet_create_with_data\<close> makes a packet over the payload
  bytes at the front of the buffer, and the handler is called with it. A handler does
  not change the receive buffer (the specification puts a handler that does out of
  contract), so a call is recorded with the payload it was given.
\<close>

definition packet_create_with_data :: "byte list \<Rightarrow> nat \<Rightarrow> byte list" where
  "packet_create_with_data buf n = take n buf"

definition call_handler :: "EndpointHandler \<Rightarrow> byte list \<Rightarrow> rx_state \<Rightarrow> rx_state" where
  "call_handler h p st = st\<lparr>dispatched := dispatched st @ [(h, p)]\<rparr>"

text \<open>\<^verbatim>\<open>memmove(buf + dst, buf + src, n)\<close> inside one array.\<close>

definition memmove :: "byte list \<Rightarrow> nat \<Rightarrow> nat \<Rightarrow> nat \<Rightarrow> byte list" where
  "memmove buf dst src n = take dst buf @ take n (drop src buf) @ drop (dst + n) buf"

subsection \<open>The frame decoder\<close>

text \<open>
  \<^verbatim>\<open>_qemu_read_header\<close> casts the start of the raw buffer to a header and converts the
  three fields; it does not look at the used-length.
\<close>

definition qemu_read_header :: "rx_state \<Rightarrow> QemuCommChannelHeader" where
  "qemu_read_header st =
     (let buf = protocol_get_rx_buffer st
      in \<lparr>signature = ntohs (load_u16 buf 0),
          protocol = ntohs (load_u16 buf 2),
          len = ntohs (load_u16 buf 4)\<rparr>)"

text \<open>
  What stops the decoder without a return value: a failed \<^verbatim>\<open>assert\<close>, and the call
  \<^verbatim>\<open>handler(p)\<close> through a null function pointer.
\<close>

datatype fault = Assertion_failed | Null_handler_call

definition qemu_handle_packet ::
  "qemu_config \<Rightarrow> rx_state \<Rightarrow> fault + (packet_result \<times> rx_state)" where
  "qemu_handle_packet env st =
     (let header = qemu_read_header st
      in if signature header \<noteq> QEMU_HEADER_SIGNATURE env
         then Inr (PACKET_INVALID, LOG (Invalid_header_signature (signature header)) st)
         else if unat (len header) > QEMU_MAX_DATA_LEN env
         then Inr (PACKET_INVALID, LOG (Invalid_packet_size (len header)) st)
         else if protocol_get_rx_buf_used st
                  < unat (len header) + sizeof_QemuCommChannelHeader + sizeof_QemuCommChannelFooter
         then Inr (PACKET_MORE_DATA_REQD,
                   LOG (More_Data_Required (len header) (protocol_get_rx_buf_used st)) st)
         else
           let handler = protocol_find_endpoint_handler (protocol header) (qemu_endpoints env);
               st1 = (if handler = None then LOG (Unknown_protocol (protocol header)) st else st);
               buf = protocol_get_rx_buffer st1;
               footer = ntohs (load_u16 buf (unat (len header) + sizeof_QemuCommChannelHeader))
           in if footer \<noteq> QEMU_FOOTER_SIGNATURE env
              then Inr (PACKET_INVALID, LOG (Invalid_footer_signature footer) st1)
              else
                let st2 = st1\<lparr>rx_buffer :=
                            memmove buf 0 sizeof_QemuCommChannelHeader (unat (len header))\<rparr>;
                    st3 = protocol_rx_buffer_pointer_adjust
                            (- int (sizeof_QemuCommChannelFooter + sizeof_QemuCommChannelHeader)) st2
                in if assert_enabled env \<and> protocol_get_rx_buf_used st3 \<noteq> unat (len header)
                   then Inl Assertion_failed
                   else
                     let p = packet_create_with_data (protocol_get_rx_buffer st3)
                               (unat (len header))
                     in case handler of
                          None \<Rightarrow> Inl Null_handler_call
                        | Some h \<Rightarrow>
                            let st4 = call_handler h p st3
                            in if protocol_get_rx_buf_used st4 > unat (len header)
                               then Inr (PACKET_BUFFER_HAS_DATA, st4)
                               else Inr (PACKET_PROCESSED, st4))"

subsection \<open>The worker\<close>

text \<open>
  Modelled from the spec: \<^verbatim>\<open>transport.read(buf, max) -> n\<close>. The bytes the transport
  hands over on the successive calls of \<^verbatim>\<open>hw_qemu_read(buf, 64)\<close> after one wake-up are
  given as a list of chunks; once the list is used up a read returns no bytes.
\<close>

definition hw_qemu_read :: "byte list list \<Rightarrow> byte list \<times> byte list list" where
  "hw_qemu_read reads = (case reads of [] \<Rightarrow> ([], []) | c # cs \<Rightarrow> (c, cs))"

text \<open>
  One turn of the body of \<^verbatim>\<open>while(!done)\<close>: the chunk just read is appended, the decoder
  is called, and the new value of \<open>done\<close> is returned with the state.
\<close>

definition qemu_thread_iter ::
  "qemu_config \<Rightarrow> byte list \<Rightarrow> rx_state \<Rightarrow> fault + (bool \<times> rx_state)" where
  "qemu_thread_iter env chunk st =
     (let lenr = length chunk;
          (done, st1) =
            (if lenr \<noteq> 0
             then (case protocol_rx_buffer_append chunk st of
                     (rc, st') \<Rightarrow>
                       if rc < 0 then (True, protocol_rx_buffer_reset st') else (False, st'))
             else (False, st))
      in case qemu_handle_packet env st1 of
           Inl f \<Rightarrow> Inl f
         | Inr (rv, st2) \<Rightarrow>
             if rv = PACKET_PROCESSED \<or> rv = PACKET_MORE_DATA_REQD then Inr (True, st2)
             else if rv = PACKET_INVALID then Inr (True, protocol_rx_buffer_reset st2)
             else Inr (done, st2))"

text \<open>
  The loop \<^verbatim>\<open>while(!done)\<close> after one wake-up. It ends: a turn that leaves \<open>done\<close>
  unset had the decoder answer \<^verbatim>\<open>PACKET_BUFFER_HAS_DATA\<close>, which takes a consumed
  wrapper off the used-length, and the chunks still to be read get fewer.
\<close>

function qemu_thread_loop ::
  "qemu_config \<Rightarrow> byte list list \<Rightarrow> rx_state \<Rightarrow> fault + rx_state" where
  "qemu_thread_loop env reads st =
     (case hw_qemu_read reads of
        (chunk, rest) \<Rightarrow>
          (case qemu_thread_iter env chunk st of
             Inl f \<Rightarrow> Inl f
           | Inr (dn, st') \<Rightarrow> if dn then Inr st' else qemu_thread_loop env rest st'))"
  by pat_completeness auto
termination
proof (relation "measures [\<lambda>(env, reads, st). length reads, \<lambda>(env, reads, st). rx_buf_used st]")
  show "wf (measures [\<lambda>(env, reads, st). length reads, \<lambda>(env, reads, st). rx_buf_used st])"
    by simp
next
  fix env :: qemu_config and reads :: "byte list list" and st :: rx_state
    and chunk rest y dn st'
  assume r: "(chunk, rest) = hw_qemu_read reads"
    and i: "qemu_thread_iter env chunk st = Inr y" and d: "(dn, st') = y" "\<not> dn"
  show "((env, rest, st'), (env, reads, st))
          \<in> measures [\<lambda>(env, reads, st). length reads, \<lambda>(env, reads, st). rx_buf_used st]"
  proof (cases reads)
    case Nil
    with r have e: "chunk = []" "rest = []" by (simp_all add: hw_qemu_read_def)
    with i d obtain rv where h: "qemu_handle_packet env st = Inr (rv, st')"
      and rv: "rv \<noteq> PACKET_PROCESSED" "rv \<noteq> PACKET_MORE_DATA_REQD" "rv \<noteq> PACKET_INVALID"
      by (auto simp: qemu_thread_iter_def split: sum.splits if_splits)
    from rv have "rv = PACKET_BUFFER_HAS_DATA" by (cases rv) simp_all
    with h have "rx_buf_used st' < rx_buf_used st"
      by (auto simp: qemu_handle_packet_def Let_def LOG_def protocol_get_rx_buf_used_def
          protocol_rx_buffer_pointer_adjust_def call_handler_def sizeof_QemuCommChannelHeader_def
          sizeof_QemuCommChannelFooter_def
          split: if_splits option.splits)
    with Nil e show ?thesis by simp
  next
    case (Cons c cs)
    with r show ?thesis by (simp add: hw_qemu_read_def)
  qed
qed

text \<open>
  The outer \<^verbatim>\<open>for (;;)\<close> of \<^verbatim>\<open>_qemu_thread\<close>, run over the wake-ups that arrive: each takes
  the semaphore and runs the inner loop on what the transport delivers after it. The
  result is the state in which the worker waits for the next wake-up, or the fault
  that stopped it.
\<close>

fun qemu_thread :: "qemu_config \<Rightarrow> byte list list list \<Rightarrow> rx_state \<Rightarrow> fault + rx_state" where
  "qemu_thread env [] st = Inr st"
| "qemu_thread env (reads # wakes) st =
     (case qemu_thread_loop env reads st of
        Inl f \<Rightarrow> Inl f
      | Inr st' \<Rightarrow> qemu_thread env wakes st')"

text \<open>
  Feeding chunks one at a time: every chunk is one wake-up whose first read returns
  the chunk and whose later reads return nothing.
\<close>

definition feed_chunks :: "qemu_config \<Rightarrow> byte list list \<Rightarrow> rx_state \<Rightarrow> fault + rx_state" where
  "feed_chunks env chunks st = qemu_thread env (map (\<lambda>c. [c]) chunks) st"

subsection \<open>The send path\<close>

text \<open>
  Modelled from the spec: \<^verbatim>\<open>transport.write(buf, n) -> n\<close> puts the first \<open>n\<close> bytes at
  \<open>buf\<close> on the wire; \<open>tx\<close> is what has been written so far.
\<close>

definition hw_qemu_write :: "byte list \<Rightarrow> nat \<Rightarrow> byte list \<Rightarrow> byte list" where
  "hw_qemu_write buffer n tx = tx @ take n buffer"

definition store_header :: "QemuCommChannelHeader \<Rightarrow> byte list" where
  "store_header h = store_u16 (signature h) @ store_u16 (protocol h) @ store_u16 (len h)"

text \<open>
  \<^verbatim>\<open>qemu_send_data(endpoint, data, len)\<close>; \<open>is_qemu\<close> is the flag set by
  \<^verbatim>\<open>qemu_init\<close>. The sum \<^verbatim>\<open>len + 4\<close> is cut to 16 bits by \<^verbatim>\<open>htons\<close>.
\<close>

definition qemu_send_data ::
  "qemu_config \<Rightarrow> bool \<Rightarrow> uint16_t \<Rightarrow> byte list \<Rightarrow> uint16_t \<Rightarrow> byte list \<Rightarrow> byte list" where
  "qemu_send_data env is_qemu endpoint data n tx =
     (if \<not> is_qemu then tx
      else
        let header = \<lparr>signature = htons (QEMU_HEADER_SIGNATURE env),
                      protocol = htons (QemuProtocol_SPP env),
                      len = htons (n + 4)\<rparr>;
            tx1 = hw_qemu_write (store_header header) sizeof_QemuCommChannelHeader tx;
            l = htons n;
            tx2 = hw_qemu_write (store_u16 l) 2 tx1;
            ep = htons endpoint;
            tx3 = hw_qemu_write (store_u16 ep) 2 tx2;
            tx4 = hw_qemu_write data (unat n) tx3;
            footer = htons (QEMU_FOOTER_SIGNATURE env)
        in hw_qemu_write (store_u16 footer) sizeof_QemuCommChannelFooter tx4)"

subsection \<open>Frames on the wire\<close>

text \<open>
  The wire format of the specification (section 6), which is what
  \<^verbatim>\<open>_qemu_handle_packet\<close> accepts: header signature, protocol, payload length, the
  payload, footer signature, every integer in network byte order.
\<close>

definition be16 :: "uint16_t \<Rightarrow> byte list" where
  "be16 x = [ucast (drop_bit 8 x), ucast x]"

definition wire_frame :: "qemu_config \<Rightarrow> uint16_t \<Rightarrow> byte list \<Rightarrow> byte list" where
  "wire_frame env proto payload =
     be16 (QEMU_HEADER_SIGNATURE env) @ be16 proto @ be16 (of_nat (length payload)) @
     payload @ be16 (QEMU_FOOTER_SIGNATURE env)"

text \<open>
  The values used where a concrete configuration is needed: the signatures \<open>0xFEED\<close>
  and \<open>0xBEEF\<close>, a cap of 2048 bytes, protocol 1 for \<^verbatim>\<open>QemuProtocol_SPP\<close> with one
  registered handler, and a receive buffer of 64 zero bytes with nothing received.
\<close>

definition qemu_config0 :: "bool \<Rightarrow> qemu_config" where
  "qemu_config0 a =
     \<lparr>QEMU_HEADER_SIGNATURE = 0xFEED, QEMU_FOOTER_SIGNATURE = 0xBEEF,
      QEMU_MAX_DATA_LEN = 2048, QemuProtocol_SPP = 1,
      qemu_endpoints = [(1, 1)], assert_enabled = a\<rparr>"

definition rx_state0 :: rx_state where
  "rx_state0 = \<lparr>rx_buffer = replicate 64 0, rx_buf_used = 0, log = [], dispatched = []\<rparr>"

definition ping :: "byte list" where
  "ping = [0x70, 0x69, 0x6E, 0x67]"

definition rx_with :: "byte list \<Rightarrow> nat \<Rightarrow> rx_state" where
  "rx_with mem used = \<lparr>rx_buffer = mem, rx_buf_used = used, log = [], dispatched = []\<rparr>"

section \<open>Byte order and frames\<close>

lemma ntohs_load_u16:
  "buf ! i = ucast (drop_bit 8 x) \<Longrightarrow> buf ! Suc i = ucast x \<Longrightarrow> ntohs (load_u16 buf i) = x"
  unfolding ntohs_def load_u16_def
  by (rule bit_word_eqI) (auto simp: bit_simps)

lemma store_u16_htons: "store_u16 (htons x) = be16 x"
  unfolding store_u16_def htons_def be16_def
  by (auto intro!: bit_word_eqI simp: bit_simps)

lemma length_be16: "length (be16 x) = 2"
  by (simp add: be16_def)

lemma length_wire_frame: "length (wire_frame env proto P) = length P + 8"
  by (simp add: wire_frame_def length_be16)

lemma take6_wire_frame:
  "take 6 (wire_frame env proto P) =
     [ucast (drop_bit 8 (QEMU_HEADER_SIGNATURE env)), ucast (QEMU_HEADER_SIGNATURE env),
      ucast (drop_bit 8 proto), ucast proto,
      ucast (drop_bit 8 (of_nat (length P) :: uint16_t)), ucast (of_nat (length P) :: uint16_t)]"
  by (simp add: wire_frame_def be16_def)

lemma qemu_read_header_frame:
  assumes "take 6 (rx_buffer st) = take 6 (wire_frame env proto P)"
  shows "qemu_read_header st =
           \<lparr>signature = QEMU_HEADER_SIGNATURE env, protocol = proto, len = of_nat (length P)\<rparr>"
proof -
  have n: "rx_buffer st ! i = take 6 (wire_frame env proto P) ! i" if "i < 6" for i
    using that assms by (metis nth_take)
  have "ntohs (load_u16 (rx_buffer st) 0) = QEMU_HEADER_SIGNATURE env"
    by (rule ntohs_load_u16) (simp_all add: n take6_wire_frame)
  moreover have "ntohs (load_u16 (rx_buffer st) 2) = proto"
    by (rule ntohs_load_u16) (simp_all add: n take6_wire_frame)
  moreover have "ntohs (load_u16 (rx_buffer st) 4) = of_nat (length P)"
    by (rule ntohs_load_u16) (simp_all add: n take6_wire_frame)
  ultimately show ?thesis
    by (simp add: qemu_read_header_def protocol_get_rx_buffer_def)
qed

lemma wire_frame_footer:
  "ntohs (load_u16 (wire_frame env proto P @ rest) (length P + 6)) = QEMU_FOOTER_SIGNATURE env"
  by (rule ntohs_load_u16) (simp_all add: wire_frame_def be16_def nth_append)

lemma wire_frame_memmove:
  "memmove (wire_frame env proto P @ rest) 0 6 (length P) =
     P @ drop (length P) (wire_frame env proto P @ rest)"
  by (simp add: memmove_def wire_frame_def be16_def)

lemma unat_of_nat_len: "n < 65536 \<Longrightarrow> unat (of_nat n :: uint16_t) = n"
  by (simp add: unat_of_nat)

text \<open>
  Decoding a buffer that starts with a complete frame: what happens depends on whether
  more bytes follow the frame and on whether the protocol has a handler.
\<close>

lemma qemu_handle_packet_frame:
  assumes buf: "rx_buffer st = wire_frame env proto P @ rest"
    and len: "length P \<le> QEMU_MAX_DATA_LEN env" "length P < 65536"
    and used: "length P + 8 \<le> rx_buf_used st"
  shows "qemu_handle_packet env st =
    (if assert_enabled env \<and> rx_buf_used st \<noteq> length P + 8 then Inl Assertion_failed
     else case protocol_find_endpoint_handler proto (qemu_endpoints env) of
       None \<Rightarrow> Inl Null_handler_call
     | Some h \<Rightarrow>
         Inr (if rx_buf_used st > length P + 8 then PACKET_BUFFER_HAS_DATA else PACKET_PROCESSED,
           st\<lparr>rx_buffer := P @ drop (length P) (rx_buffer st),
              rx_buf_used := rx_buf_used st - 8,
              dispatched := dispatched st @ [(h, P)]\<rparr>))"
proof -
  have h: "qemu_read_header st =
      \<lparr>signature = QEMU_HEADER_SIGNATURE env, protocol = proto, len = of_nat (length P)\<rparr>"
    by (rule qemu_read_header_frame) (simp add: buf length_wire_frame)
  note u = unat_of_nat_len [OF len(2)]
  have f: "ntohs (load_u16 (rx_buffer st) (length P + 6)) = QEMU_FOOTER_SIGNATURE env"
    by (simp add: buf wire_frame_footer)
  have m: "memmove (rx_buffer st) 0 6 (length P) = P @ drop (length P) (rx_buffer st)"
    by (simp add: buf wire_frame_memmove)
  have t: "take (length P) (P @ drop (length P) (rx_buffer st)) = P" by simp
  show ?thesis
    using len(1) used
    by (auto simp add: qemu_handle_packet_def h u f m t Let_def LOG_def protocol_get_rx_buf_used_def
        protocol_get_rx_buffer_def protocol_rx_buffer_pointer_adjust_def call_handler_def
        packet_create_with_data_def sizeof_QemuCommChannelHeader_def
        sizeof_QemuCommChannelFooter_def nat_diff_distrib'
        split: option.splits)
qed

section \<open>The decoder on an incomplete frame\<close>

text \<open>
  Claim C10. When the header at the front of the buffer has the right signature and a
  length within the cap, and fewer bytes are in use than header, payload and footer
  take together, \<^verbatim>\<open>_qemu_handle_packet\<close> returns \<^verbatim>\<open>PACKET_MORE_DATA_REQD\<close> and leaves
  the contents and the used-length of the buffer as they were; it only writes the log
  line "More Data Required".
\<close>

theorem qemu_handle_packet_more_data:
  assumes "signature (qemu_read_header st) = QEMU_HEADER_SIGNATURE env"
    and "unat (len (qemu_read_header st)) \<le> QEMU_MAX_DATA_LEN env"
    and "rx_buf_used st < sizeof_QemuCommChannelHeader + unat (len (qemu_read_header st))
                            + sizeof_QemuCommChannelFooter"
  shows "\<exists>st'. qemu_handle_packet env st = Inr (PACKET_MORE_DATA_REQD, st') \<and>
           rx_buffer st' = rx_buffer st \<and> rx_buf_used st' = rx_buf_used st \<and>
           dispatched st' = dispatched st \<and>
           log st' = log st @ [More_Data_Required (len (qemu_read_header st)) (rx_buf_used st)]"
  using assms
  by (simp add: qemu_handle_packet_def Let_def LOG_def protocol_get_rx_buf_used_def
      sizeof_QemuCommChannelHeader_def sizeof_QemuCommChannelFooter_def)

text \<open>The first nine bytes of a frame carrying \<open>ping\<close>, in a buffer of 64 bytes.\<close>

theorem qemu_handle_packet_more_data_witness:
  "signature (qemu_read_header (rx_with (take 9 (wire_frame (qemu_config0 True) 1 ping) @ replicate 55 0) 9))
     = QEMU_HEADER_SIGNATURE (qemu_config0 True) \<and>
   unat (len (qemu_read_header (rx_with (take 9 (wire_frame (qemu_config0 True) 1 ping) @ replicate 55 0) 9)))
     \<le> QEMU_MAX_DATA_LEN (qemu_config0 True) \<and>
   rx_buf_used (rx_with (take 9 (wire_frame (qemu_config0 True) 1 ping) @ replicate 55 0) 9) < 6 + 4 + 2 \<and>
   (\<exists>st'. qemu_handle_packet (qemu_config0 True)
            (rx_with (take 9 (wire_frame (qemu_config0 True) 1 ping) @ replicate 55 0) 9)
          = Inr (PACKET_MORE_DATA_REQD, st') \<and> rx_buf_used st' = 9 \<and>
          rx_buffer st' = take 9 (wire_frame (qemu_config0 True) 1 ping) @ replicate 55 0 \<and>
          log st' = [More_Data_Required 4 9])"
proof -
  let ?st = "rx_with (take 9 (wire_frame (qemu_config0 True) 1 ping) @ replicate 55 0) 9"
  let ?env = "qemu_config0 True"
  have h1: "signature (qemu_read_header ?st) = QEMU_HEADER_SIGNATURE ?env" by code_simp
  have l: "len (qemu_read_header ?st) = 4" by code_simp
  have h2: "unat (len (qemu_read_header ?st)) \<le> QEMU_MAX_DATA_LEN ?env" by code_simp
  have h3: "rx_buf_used ?st < sizeof_QemuCommChannelHeader + unat (len (qemu_read_header ?st))
                            + sizeof_QemuCommChannelFooter" by code_simp
  have u: "rx_buf_used ?st = 9" "rx_buffer ?st = take 9 (wire_frame ?env 1 ping) @ replicate 55 0"
    "log ?st = []"
    by (simp_all add: rx_with_def)
  from qemu_handle_packet_more_data [OF h1 h2 h3] h1 h2 show ?thesis
    by (auto simp add: u l)
qed

section \<open>Rejection of an oversized length\<close>

lemma qemu_read_header_cong:
  "take 6 (rx_buffer st') = take 6 (rx_buffer st) \<Longrightarrow> qemu_read_header st' = qemu_read_header st"
proof -
  assume a: "take 6 (rx_buffer st') = take 6 (rx_buffer st)"
  have "rx_buffer st' ! i = rx_buffer st ! i" if "i < 6" for i
    using that a by (metis nth_take)
  then show ?thesis
    by (simp add: qemu_read_header_def protocol_get_rx_buffer_def load_u16_def Let_def)
qed

text \<open>
  Claim C9. When the header at the front of the buffer has the right signature and a
  length above \<^verbatim>\<open>QEMU_MAX_DATA_LEN\<close>, \<^verbatim>\<open>_qemu_handle_packet\<close> returns
  \<^verbatim>\<open>PACKET_INVALID\<close> with the log line "Invalid packet size" and changes nothing else.
  It does so before the footer is looked at: the answer is the same whatever bytes
  follow the six header bytes and whatever the used-length is.
\<close>

theorem qemu_handle_packet_oversized:
  assumes "signature (qemu_read_header st) = QEMU_HEADER_SIGNATURE env"
    and "unat (len (qemu_read_header st)) > QEMU_MAX_DATA_LEN env"
    and "sizeof_QemuCommChannelHeader \<le> length (rx_buffer st)"
  shows "qemu_handle_packet env st =
           Inr (PACKET_INVALID, LOG (Invalid_packet_size (len (qemu_read_header st))) st) \<and>
         (\<forall>rest used.
            qemu_handle_packet env
                (st\<lparr>rx_buffer := take sizeof_QemuCommChannelHeader (rx_buffer st) @ rest,
                    rx_buf_used := used\<rparr>) =
              Inr (PACKET_INVALID,
                   LOG (Invalid_packet_size (len (qemu_read_header st)))
                     (st\<lparr>rx_buffer := take sizeof_QemuCommChannelHeader (rx_buffer st) @ rest,
                         rx_buf_used := used\<rparr>)))"
proof -
  have "qemu_read_header (st\<lparr>rx_buffer := take 6 (rx_buffer st) @ rest, rx_buf_used := used\<rparr>)
          = qemu_read_header st" for rest used
    using assms(3) by (intro qemu_read_header_cong) (simp add: sizeof_QemuCommChannelHeader_def)
  with assms(1,2) show ?thesis
    by (simp add: qemu_handle_packet_def Let_def sizeof_QemuCommChannelHeader_def)
qed

text \<open>A header with the right signature and the length \<open>0x0801 = 2049\<close>.\<close>

theorem qemu_handle_packet_oversized_witness:
  "signature (qemu_read_header (rx_with ([0xFE, 0xED, 0, 1, 0x08, 0x01] @ replicate 58 0) 64))
     = QEMU_HEADER_SIGNATURE (qemu_config0 True) \<and>
   unat (len (qemu_read_header (rx_with ([0xFE, 0xED, 0, 1, 0x08, 0x01] @ replicate 58 0) 64)))
     > QEMU_MAX_DATA_LEN (qemu_config0 True) \<and>
   qemu_handle_packet (qemu_config0 True)
       (rx_with ([0xFE, 0xED, 0, 1, 0x08, 0x01] @ replicate 58 0) 64) =
     Inr (PACKET_INVALID,
          LOG (Invalid_packet_size 0x0801)
            (rx_with ([0xFE, 0xED, 0, 1, 0x08, 0x01] @ replicate 58 0) 64))"
proof -
  let ?st = "rx_with ([0xFE, 0xED, 0, 1, 0x08, 0x01] @ replicate 58 0) 64"
  let ?env = "qemu_config0 True"
  have h1: "signature (qemu_read_header ?st) = QEMU_HEADER_SIGNATURE ?env" by code_simp
  have h2: "unat (len (qemu_read_header ?st)) > QEMU_MAX_DATA_LEN ?env" by code_simp
  have h3: "sizeof_QemuCommChannelHeader \<le> length (rx_buffer ?st)" by code_simp
  have "qemu_handle_packet ?env ?st = Inr (PACKET_INVALID, LOG (Invalid_packet_size 0x0801) ?st)"
    by (rule qemu_handle_packet_oversized [OF h1 h2 h3, THEN conjunct1, THEN trans]) code_simp
  with h1 h2 show ?thesis by simp
qed

section \<open>Fewer bytes than a header\<close>

lemma ucast_ntohs_load_u16: "(ucast (ntohs (load_u16 buf i)) :: byte) = buf ! Suc i"
  unfolding ntohs_def load_u16_def
  by (rule bit_word_eqI) (auto simp: bit_simps dest: bit_imp_le_length)

lemma qemu_handle_packet_short:
  assumes "rx_buf_used st < 6"
  shows "qemu_handle_packet env st =
          (let header = qemu_read_header st
           in if signature header \<noteq> QEMU_HEADER_SIGNATURE env
              then Inr (PACKET_INVALID, LOG (Invalid_header_signature (signature header)) st)
              else if unat (len header) > QEMU_MAX_DATA_LEN env
              then Inr (PACKET_INVALID, LOG (Invalid_packet_size (len header)) st)
              else Inr (PACKET_MORE_DATA_REQD,
                        LOG (More_Data_Required (len header) (rx_buf_used st)) st))"
  using assms
  by (simp add: qemu_handle_packet_def Let_def protocol_get_rx_buf_used_def
      sizeof_QemuCommChannelHeader_def sizeof_QemuCommChannelFooter_def)

text \<open>
  Claim C4. \<^verbatim>\<open>_qemu_handle_packet\<close> reads the six header bytes from the raw buffer
  without comparing the used-length with the header size. With fewer than six bytes
  in use the result is \<^verbatim>\<open>PACKET_INVALID\<close> or \<^verbatim>\<open>PACKET_MORE_DATA_REQD\<close>, decided by
  the signature and length fields as they stand in the array, bytes past the
  used-length included. For every configuration there are two buffers with the same
  single received byte, differing only in a byte past the used-length, of which one is
  rejected and the other is asked for more data.
\<close>

theorem qemu_handle_packet_reads_stale_header:
  assumes "rx_buf_used st < sizeof_QemuCommChannelHeader"
  shows "qemu_handle_packet env st =
          (let header = \<lparr>signature = ntohs (load_u16 (rx_buffer st) 0),
                         protocol = ntohs (load_u16 (rx_buffer st) 2),
                         len = ntohs (load_u16 (rx_buffer st) 4)\<rparr>
           in if signature header \<noteq> QEMU_HEADER_SIGNATURE env
              then Inr (PACKET_INVALID, LOG (Invalid_header_signature (signature header)) st)
              else if unat (len header) > QEMU_MAX_DATA_LEN env
              then Inr (PACKET_INVALID, LOG (Invalid_packet_size (len header)) st)
              else Inr (PACKET_MORE_DATA_REQD,
                        LOG (More_Data_Required (len header) (rx_buf_used st)) st)) \<and>
         (\<exists>st1 st2. rx_buf_used st1 = 1 \<and> rx_buf_used st2 = 1 \<and>
            take 1 (rx_buffer st1) = take 1 (rx_buffer st2) \<and>
            length (rx_buffer st1) = length (rx_buffer st2) \<and>
            log st1 = log st2 \<and> dispatched st1 = dispatched st2 \<and>
            (\<exists>s. qemu_handle_packet env st1 = Inr (PACKET_INVALID, s)) \<and>
            (\<exists>s. qemu_handle_packet env st2 = Inr (PACKET_MORE_DATA_REQD, s)))"
proof
  from assms have u: "rx_buf_used st < 6" by (simp add: sizeof_QemuCommChannelHeader_def)
  show "qemu_handle_packet env st =
          (let header = \<lparr>signature = ntohs (load_u16 (rx_buffer st) 0),
                         protocol = ntohs (load_u16 (rx_buffer st) 2),
                         len = ntohs (load_u16 (rx_buffer st) 4)\<rparr>
           in if signature header \<noteq> QEMU_HEADER_SIGNATURE env
              then Inr (PACKET_INVALID, LOG (Invalid_header_signature (signature header)) st)
              else if unat (len header) > QEMU_MAX_DATA_LEN env
              then Inr (PACKET_INVALID, LOG (Invalid_packet_size (len header)) st)
              else Inr (PACKET_MORE_DATA_REQD,
                        LOG (More_Data_Required (len header) (rx_buf_used st)) st))"
    by (simp add: qemu_handle_packet_short [OF u] qemu_read_header_def
        protocol_get_rx_buffer_def Let_def)
next
  let ?hi = "ucast (drop_bit 8 (QEMU_HEADER_SIGNATURE env)) :: byte"
  let ?lo = "ucast (QEMU_HEADER_SIGNATURE env) :: byte"
  let ?st1 = "rx_with [?hi, ?lo + 1, 0, 0, 0, 0] (Suc 0)"
  let ?st2 = "rx_with [?hi, ?lo, 0, 0, 0, 0] (Suc 0)"
  have s1: "signature (qemu_read_header ?st1) \<noteq> QEMU_HEADER_SIGNATURE env"
  proof
    assume "signature (qemu_read_header ?st1) = QEMU_HEADER_SIGNATURE env"
    then have "(ucast (ntohs (load_u16 [?hi, ?lo + 1, 0, 0, 0, 0] 0)) :: byte) = ?lo"
      by (simp add: qemu_read_header_def protocol_get_rx_buffer_def rx_with_def Let_def)
    then show False by (simp add: ucast_ntohs_load_u16)
  qed
  have s2: "signature (qemu_read_header ?st2) = QEMU_HEADER_SIGNATURE env"
    by (simp add: qemu_read_header_def protocol_get_rx_buffer_def rx_with_def ntohs_load_u16 Let_def)
  have l2: "len (qemu_read_header ?st2) = 0"
    by (simp add: qemu_read_header_def protocol_get_rx_buffer_def rx_with_def ntohs_load_u16 Let_def)
  have u: "rx_buf_used ?st1 < 6" "rx_buf_used ?st2 < 6" by (simp_all add: rx_with_def)
  have "\<exists>s. qemu_handle_packet env ?st1 = Inr (PACKET_INVALID, s)"
    by (subst qemu_handle_packet_short [OF u(1)]) (simp add: Let_def s1)
  moreover have "\<exists>s. qemu_handle_packet env ?st2 = Inr (PACKET_MORE_DATA_REQD, s)"
    by (subst qemu_handle_packet_short [OF u(2)]) (simp add: Let_def s2 l2)
  moreover have "rx_buf_used ?st1 = 1 \<and> rx_buf_used ?st2 = 1 \<and>
      take 1 (rx_buffer ?st1) = take 1 (rx_buffer ?st2) \<and>
      length (rx_buffer ?st1) = length (rx_buffer ?st2) \<and>
      log ?st1 = log ?st2 \<and> dispatched ?st1 = dispatched ?st2"
    by (simp add: rx_with_def)
  ultimately show "\<exists>st1 st2. rx_buf_used st1 = 1 \<and> rx_buf_used st2 = 1 \<and>
            take 1 (rx_buffer st1) = take 1 (rx_buffer st2) \<and>
            length (rx_buffer st1) = length (rx_buffer st2) \<and>
            log st1 = log st2 \<and> dispatched st1 = dispatched st2 \<and>
            (\<exists>s. qemu_handle_packet env st1 = Inr (PACKET_INVALID, s)) \<and>
            (\<exists>s. qemu_handle_packet env st2 = Inr (PACKET_MORE_DATA_REQD, s))"
    by blast
qed

text \<open>
  Five bytes of a frame whose length field is \<open>0x0800\<close> have been received; the sixth
  byte of the array is left over from earlier traffic. With \<open>0x00\<close> there the decoder
  asks for more data, with \<open>0x01\<close> it reads the length \<open>0x0801\<close> and rejects.
\<close>

theorem qemu_handle_packet_reads_stale_header_witness:
  "rx_buf_used (rx_with ([0xFE, 0xED, 0, 1, 0x08] @ 0x00 # replicate 58 0) 5)
      < sizeof_QemuCommChannelHeader \<and>
   rx_buf_used (rx_with ([0xFE, 0xED, 0, 1, 0x08] @ 0x01 # replicate 58 0) 5)
      < sizeof_QemuCommChannelHeader \<and>
   qemu_handle_packet (qemu_config0 True)
       (rx_with ([0xFE, 0xED, 0, 1, 0x08] @ 0x00 # replicate 58 0) 5) =
     Inr (PACKET_MORE_DATA_REQD,
          LOG (More_Data_Required 0x0800 5)
            (rx_with ([0xFE, 0xED, 0, 1, 0x08] @ 0x00 # replicate 58 0) 5)) \<and>
   qemu_handle_packet (qemu_config0 True)
       (rx_with ([0xFE, 0xED, 0, 1, 0x08] @ 0x01 # replicate 58 0) 5) =
     Inr (PACKET_INVALID,
          LOG (Invalid_packet_size 0x0801)
            (rx_with ([0xFE, 0xED, 0, 1, 0x08] @ 0x01 # replicate 58 0) 5))"
proof -
  let ?a = "rx_with ([0xFE, 0xED, 0, 1, 0x08] @ 0x00 # replicate 58 0) 5"
  let ?b = "rx_with ([0xFE, 0xED, 0, 1, 0x08] @ 0x01 # replicate 58 0) 5"
  let ?env = "qemu_config0 True"
  have ha: "rx_buf_used ?a < sizeof_QemuCommChannelHeader" by code_simp
  have hb: "rx_buf_used ?b < sizeof_QemuCommChannelHeader" by code_simp
  have "qemu_handle_packet ?env ?a = Inr (PACKET_MORE_DATA_REQD, LOG (More_Data_Required 0x0800 5) ?a)"
    by (rule qemu_handle_packet_reads_stale_header [OF ha, of ?env, THEN conjunct1, THEN trans])
      code_simp
  moreover
  have "qemu_handle_packet ?env ?b = Inr (PACKET_INVALID, LOG (Invalid_packet_size 0x0801) ?b)"
    by (rule qemu_handle_packet_reads_stale_header [OF hb, of ?env, THEN conjunct1, THEN trans])
      code_simp
  ultimately show ?thesis using ha hb by simp
qed

section \<open>A failed append in the worker loop\<close>

lemma protocol_rx_buffer_reset_LOG:
  "protocol_rx_buffer_reset (LOG m (protocol_rx_buffer_reset st)) = LOG m (protocol_rx_buffer_reset st)"
  by (simp add: protocol_rx_buffer_reset_def LOG_def)

text \<open>
  Claim C5 as stated fails on this input. The buffer of 64 bytes is full with the start
  of a frame of 256 payload bytes, and one more byte arrives. The append fails and the
  buffer is reset, but the turn goes on: the decoder runs on the reset buffer, reads
  the header still standing in the array and writes "More Data Required". The turn
  does not end in the plain reset state, as it would had no decode been made.
\<close>

theorem qemu_thread_iter_append_fails_counterexample:
  "fst (protocol_rx_buffer_append [0]
          (rx_with ([0xFE, 0xED, 0, 1, 0x01, 0x00] @ replicate 58 0) 64)) < 0 \<and>
   qemu_thread_iter (qemu_config0 True) [0]
       (rx_with ([0xFE, 0xED, 0, 1, 0x01, 0x00] @ replicate 58 0) 64) =
     Inr (True, LOG (More_Data_Required 0x0100 0)
                  (protocol_rx_buffer_reset
                     (rx_with ([0xFE, 0xED, 0, 1, 0x01, 0x00] @ replicate 58 0) 64))) \<and>
   qemu_thread_iter (qemu_config0 True) [0]
       (rx_with ([0xFE, 0xED, 0, 1, 0x01, 0x00] @ replicate 58 0) 64) \<noteq>
     Inr (True, protocol_rx_buffer_reset
                  (rx_with ([0xFE, 0xED, 0, 1, 0x01, 0x00] @ replicate 58 0) 64))"
  by code_simp

text \<open>
  Claim C5, amended. In a turn of the worker loop whose append fails, the buffer is
  reset, \<^verbatim>\<open>_qemu_handle_packet\<close> is still called once, on the reset buffer, where it
  returns \<^verbatim>\<open>PACKET_INVALID\<close> or \<^verbatim>\<open>PACKET_MORE_DATA_REQD\<close> and only writes one log line;
  nothing is dispatched, the used-length stays zero, \<open>done\<close> is set and the inner loop
  exits without another read.
\<close>

theorem qemu_thread_iter_append_fails:
  assumes "chunk \<noteq> []" and "length chunk \<le> 64"
    and "fst (protocol_rx_buffer_append chunk st) < 0"
  shows "\<exists>rv m. qemu_handle_packet env (protocol_rx_buffer_reset st) =
                   Inr (rv, LOG m (protocol_rx_buffer_reset st)) \<and>
           (rv = PACKET_INVALID \<or> rv = PACKET_MORE_DATA_REQD) \<and>
           qemu_thread_iter env chunk st = Inr (True, LOG m (protocol_rx_buffer_reset st)) \<and>
           qemu_thread_loop env (chunk # reads) st = Inr (LOG m (protocol_rx_buffer_reset st))"
proof -
  let ?r = "protocol_rx_buffer_reset st"
  from assms(3) have a: "protocol_rx_buffer_append chunk st = (- 1, st)"
    by (simp add: protocol_rx_buffer_append_def split: if_splits)
  have u: "rx_buf_used ?r < 6" by (simp add: protocol_rx_buffer_reset_def)
  from qemu_handle_packet_short [OF u, of env]
  obtain rv m where h: "qemu_handle_packet env ?r = Inr (rv, LOG m ?r)"
    and rv: "rv = PACKET_INVALID \<or> rv = PACKET_MORE_DATA_REQD"
    by (auto simp: Let_def split: if_splits)
  from assms(1) a h rv have i: "qemu_thread_iter env chunk st = Inr (True, LOG m ?r)"
    by (auto simp: qemu_thread_iter_def protocol_rx_buffer_reset_LOG)
  then have "qemu_thread_loop env (chunk # reads) st = Inr (LOG m ?r)"
    by (simp add: hw_qemu_read_def)
  with h rv i show ?thesis by blast
qed

theorem qemu_thread_iter_append_fails_witness:
  "[0::byte] \<noteq> [] \<and> length [0::byte] \<le> 64 \<and>
   fst (protocol_rx_buffer_append [0]
          (rx_with ([0xFE, 0xED, 0, 1, 0x01, 0x00] @ replicate 58 0) 64)) < 0 \<and>
   (\<exists>rv m.
      qemu_handle_packet (qemu_config0 True)
          (protocol_rx_buffer_reset
             (rx_with ([0xFE, 0xED, 0, 1, 0x01, 0x00] @ replicate 58 0) 64)) =
        Inr (rv, LOG m (protocol_rx_buffer_reset
                          (rx_with ([0xFE, 0xED, 0, 1, 0x01, 0x00] @ replicate 58 0) 64))) \<and>
      (rv = PACKET_INVALID \<or> rv = PACKET_MORE_DATA_REQD) \<and>
      qemu_thread_iter (qemu_config0 True) [0]
          (rx_with ([0xFE, 0xED, 0, 1, 0x01, 0x00] @ replicate 58 0) 64) =
        Inr (True, LOG m (protocol_rx_buffer_reset
                            (rx_with ([0xFE, 0xED, 0, 1, 0x01, 0x00] @ replicate 58 0) 64))) \<and>
      qemu_thread_loop (qemu_config0 True) [[0], [1, 2]]
          (rx_with ([0xFE, 0xED, 0, 1, 0x01, 0x00] @ replicate 58 0) 64) =
        Inr (LOG m (protocol_rx_buffer_reset
                      (rx_with ([0xFE, 0xED, 0, 1, 0x01, 0x00] @ replicate 58 0) 64))))"
proof -
  let ?st = "rx_with ([0xFE, 0xED, 0, 1, 0x01, 0x00] @ replicate 58 0) 64"
  have h1: "[0::byte] \<noteq> []" by simp
  have h2: "length [0::byte] \<le> 64" by simp
  have h3: "fst (protocol_rx_buffer_append [0] ?st) < 0" by code_simp
  from qemu_thread_iter_append_fails [OF h1 h2 h3, of "qemu_config0 True" "[[1, 2]]"] h1 h2 h3
  show ?thesis by blast
qed

section \<open>Sending and receiving\<close>

lemma qemu_send_data_wire_frame:
  assumes "is_qemu" and "length data = unat n"
  shows "qemu_send_data env is_qemu endpoint data n tx =
           tx @ wire_frame env (QemuProtocol_SPP env) (be16 n @ be16 endpoint @ data)"
  using assms
  by (simp add: qemu_send_data_def Let_def hw_qemu_write_def store_header_def
      store_u16_htons wire_frame_def length_be16 sizeof_QemuCommChannelHeader_def
      sizeof_QemuCommChannelFooter_def add.commute)

lemma protocol_rx_buffer_append_ok:
  assumes "rx_buf_used st + length bs \<le> length (rx_buffer st)"
  shows "protocol_rx_buffer_append bs st =
           (0, st\<lparr>rx_buffer := take (rx_buf_used st) (rx_buffer st) @ bs @
                                   drop (rx_buf_used st + length bs) (rx_buffer st),
                   rx_buf_used := rx_buf_used st + length bs\<rparr>)"
  using assms by (simp add: protocol_rx_buffer_append_def)

text \<open>
  Claim C1 as stated fails on the example of the specification, \<open>ping\<close> sent to
  endpoint 7. The bytes written are the frame with length field 8, and decoding them
  reports \<^verbatim>\<open>PACKET_PROCESSED\<close>; the packet handed to the handler of
  \<^verbatim>\<open>QemuProtocol_SPP\<close> carries eight bytes, the length and endpoint fields followed
  by \<open>ping\<close>, not \<open>ping\<close> alone.
\<close>

theorem qemu_send_data_roundtrip_counterexample:
  "qemu_send_data (qemu_config0 True) True 7 ping 4 [] =
     [0xFE, 0xED, 0x00, 0x01, 0x00, 0x08, 0x00, 0x04, 0x00, 0x07,
      0x70, 0x69, 0x6E, 0x67, 0xBE, 0xEF] \<and>
   fst (protocol_rx_buffer_append (qemu_send_data (qemu_config0 True) True 7 ping 4 []) rx_state0) = 0 \<and>
   map_sum id fst
     (qemu_handle_packet (qemu_config0 True)
        (snd (protocol_rx_buffer_append
                (qemu_send_data (qemu_config0 True) True 7 ping 4 []) rx_state0))) =
     Inr PACKET_PROCESSED \<and>
   map_sum id (dispatched \<circ> snd)
     (qemu_handle_packet (qemu_config0 True)
        (snd (protocol_rx_buffer_append
                (qemu_send_data (qemu_config0 True) True 7 ping 4 []) rx_state0))) =
     Inr [(1, [0x00, 0x04, 0x00, 0x07, 0x70, 0x69, 0x6E, 0x67])] \<and>
   map_sum id (dispatched \<circ> snd)
     (qemu_handle_packet (qemu_config0 True)
        (snd (protocol_rx_buffer_append
                (qemu_send_data (qemu_config0 True) True 7 ping 4 []) rx_state0))) \<noteq>
     Inr [(1, ping)]"
  by code_simp

text \<open>
  Claim C1, amended. When the channel is active, the payload with its four bytes of
  length and endpoint fits the cap, \<^verbatim>\<open>QemuProtocol_SPP\<close> has a handler and the receive
  buffer is empty and large enough, the bytes written by \<^verbatim>\<open>qemu_send_data\<close> are
  accepted by \<^verbatim>\<open>_qemu_handle_packet\<close> with \<^verbatim>\<open>PACKET_PROCESSED\<close>, and the handler
  registered for \<^verbatim>\<open>QemuProtocol_SPP\<close> is called with the packet made of the 16-bit
  payload length, the 16-bit endpoint and the payload, in this order.
\<close>

theorem qemu_send_data_roundtrip:
  assumes "is_qemu" and "length data = unat n"
    and "unat n + 4 \<le> QEMU_MAX_DATA_LEN env" and "unat n + 4 < 65536"
    and "protocol_find_endpoint_handler (QemuProtocol_SPP env) (qemu_endpoints env) = Some h"
    and "rx_buf_used st = 0" and "unat n + 12 \<le> length (rx_buffer st)"
  shows "\<exists>st1 st2.
           protocol_rx_buffer_append (qemu_send_data env is_qemu endpoint data n []) st = (0, st1) \<and>
           qemu_handle_packet env st1 = Inr (PACKET_PROCESSED, st2) \<and>
           dispatched st2 = dispatched st @ [(h, be16 n @ be16 endpoint @ data)]"
proof -
  let ?P = "be16 n @ be16 endpoint @ data"
  let ?F = "wire_frame env (QemuProtocol_SPP env) ?P"
  let ?st1 = "st\<lparr>rx_buffer := ?F @ drop (length ?F) (rx_buffer st), rx_buf_used := length ?F\<rparr>"
  have tx: "qemu_send_data env is_qemu endpoint data n [] = ?F"
    using qemu_send_data_wire_frame [OF assms(1,2), of env endpoint "[]"] by simp
  have lP: "length ?P = unat n + 4" by (simp add: length_be16 assms(2))
  have lF: "length ?F = unat n + 12" unfolding length_wire_frame lP by simp
  have a: "protocol_rx_buffer_append ?F st = (0, ?st1)"
    using assms(6,7) lF by (simp add: protocol_rx_buffer_append_ok)
  let ?st2 = "?st1\<lparr>rx_buffer := ?P @ drop (length ?P) (rx_buffer ?st1),
                rx_buf_used := rx_buf_used ?st1 - 8,
                dispatched := dispatched ?st1 @ [(h, ?P)]\<rparr>"
  have d: "qemu_handle_packet env ?st1 = Inr (PACKET_PROCESSED, ?st2)"
    using assms(3,4,5) lP lF
    by (subst qemu_handle_packet_frame [where proto = "QemuProtocol_SPP env" and P = ?P
          and rest = "drop (length ?F) (rx_buffer st)"]) simp_all
  have "dispatched ?st2 = dispatched st @ [(h, ?P)]" by simp
  with a d show ?thesis
    unfolding tx by blast
qed

theorem qemu_send_data_roundtrip_witness:
  "True \<and> length ping = unat (4 :: uint16_t) \<and>
   unat (4 :: uint16_t) + 4 \<le> QEMU_MAX_DATA_LEN (qemu_config0 True) \<and>
   unat (4 :: uint16_t) + 4 < (65536 :: nat) \<and>
   protocol_find_endpoint_handler (QemuProtocol_SPP (qemu_config0 True))
     (qemu_endpoints (qemu_config0 True)) = Some 1 \<and>
   rx_buf_used rx_state0 = 0 \<and> unat (4 :: uint16_t) + 12 \<le> length (rx_buffer rx_state0) \<and>
   (\<exists>st1 st2.
      protocol_rx_buffer_append (qemu_send_data (qemu_config0 True) True 7 ping 4 []) rx_state0
        = (0, st1) \<and>
      qemu_handle_packet (qemu_config0 True) st1 = Inr (PACKET_PROCESSED, st2) \<and>
      dispatched st2 = dispatched rx_state0 @ [(1, be16 4 @ be16 7 @ ping)])"
proof -
  let ?env = "qemu_config0 True"
  have h1: "True" by simp
  have h2: "length ping = unat (4 :: uint16_t)" by code_simp
  have h3: "unat (4 :: uint16_t) + 4 \<le> QEMU_MAX_DATA_LEN ?env" by code_simp
  have h4: "unat (4 :: uint16_t) + 4 < (65536 :: nat)" by simp
  have h5: "protocol_find_endpoint_handler (QemuProtocol_SPP ?env) (qemu_endpoints ?env) = Some 1"
    by code_simp
  have h6: "rx_buf_used rx_state0 = 0" by code_simp
  have h7: "unat (4 :: uint16_t) + 12 \<le> length (rx_buffer rx_state0)" by code_simp
  from qemu_send_data_roundtrip [OF h1 h2 h3 h4 h5 h6 h7, of 7] h2 h3 h4 h5 h6 h7
  show ?thesis by blast
qed

section \<open>Chunked delivery\<close>

text \<open>
  Claim C3 as stated fails on this stream: six bytes that are no header, followed by a
  frame carrying \<open>ping\<close>. Delivered as two chunks, the first is rejected and the buffer
  reset, and the frame is then decoded and dispatched. Delivered as one chunk, the
  whole buffer is rejected and reset with the frame in it: nothing is dispatched. The
  decoder has no resynchronisation inside the buffer, so the chunk boundaries decide
  what survives a rejection.
\<close>

theorem chunking_counterexample:
  "map_sum id dispatched
     (feed_chunks (qemu_config0 True)
        [replicate 6 0, wire_frame (qemu_config0 True) 1 ping] rx_state0) = Inr [(1, ping)] \<and>
   map_sum id dispatched
     (feed_chunks (qemu_config0 True)
        [concat [replicate 6 0, wire_frame (qemu_config0 True) 1 ping]] rx_state0) = Inr [] \<and>
   map_sum id dispatched
     (feed_chunks (qemu_config0 True)
        [replicate 6 0, wire_frame (qemu_config0 True) 1 ping] rx_state0) \<noteq>
   map_sum id dispatched
     (feed_chunks (qemu_config0 True)
        [concat [replicate 6 0, wire_frame (qemu_config0 True) 1 ping]] rx_state0)"
  by code_simp

lemma qemu_handle_packet_partial:
  assumes "take m (rx_buffer s) = take m (wire_frame env proto P)"
    and "6 \<le> m" and "m < length P + 8" and "rx_buf_used s = m"
    and "length P \<le> QEMU_MAX_DATA_LEN env" and "length P < 65536"
  shows "qemu_handle_packet env s =
           Inr (PACKET_MORE_DATA_REQD, LOG (More_Data_Required (of_nat (length P)) m) s)"
proof -
  have "take 6 (take m (rx_buffer s)) = take 6 (take m (wire_frame env proto P))"
    by (simp only: assms(1))
  with assms(2) have "take 6 (rx_buffer s) = take 6 (wire_frame env proto P)"
    by (simp add: min_def)
  then have h: "qemu_read_header s =
      \<lparr>signature = QEMU_HEADER_SIGNATURE env, protocol = proto, len = of_nat (length P)\<rparr>"
    by (rule qemu_read_header_frame)
  show ?thesis
    using assms(3-6)
    by (simp add: qemu_handle_packet_def h Let_def unat_of_nat_len protocol_get_rx_buf_used_def
        sizeof_QemuCommChannelHeader_def sizeof_QemuCommChannelFooter_def)
qed

lemma worker_append_prefix:
  assumes "take k (rx_buffer s) = take k F" and "rx_buf_used s = k"
    and "k + length c \<le> length F" and "length F \<le> length (rx_buffer s)"
    and "c = take (length c) (drop k F)"
  shows "\<exists>s1. (if length c \<noteq> 0
               then (case protocol_rx_buffer_append c s of
                       (rc, st') \<Rightarrow>
                         if rc < 0 then (True, protocol_rx_buffer_reset st') else (False, st'))
               else (False, s)) = (False, s1) \<and>
              take (k + length c) (rx_buffer s1) = take (k + length c) F \<and>
              rx_buf_used s1 = k + length c \<and>
              length (rx_buffer s1) = length (rx_buffer s) \<and>
              dispatched s1 = dispatched s"
proof (cases "c = []")
  case True
  with assms(1,2) show ?thesis by simp
next
  case False
  let ?s1 = "s\<lparr>rx_buffer := take k (rx_buffer s) @ c @ drop (k + length c) (rx_buffer s),
                rx_buf_used := k + length c\<rparr>"
  from assms(2,3,4) have a: "protocol_rx_buffer_append c s = (0, ?s1)"
    by (simp add: protocol_rx_buffer_append_ok)
  have "take k F @ c = take k F @ take (length c) (drop k F)"
    using assms(5) by simp
  also have "\<dots> = take (k + length c) F" by (simp add: take_add)
  finally have t: "take k F @ c = take (k + length c) F" .
  have lk: "length (take k (rx_buffer s)) = k" using assms(3,4) by simp
  have "take (k + length c) (rx_buffer ?s1) = take k (rx_buffer s) @ c"
    using lk by simp
  with t assms(1) have "take (k + length c) (rx_buffer ?s1) = take (k + length c) F" by simp
  moreover have "length (rx_buffer ?s1) = length (rx_buffer s)"
    using assms(3,4) by simp
  ultimately show ?thesis using a False by simp
qed

lemma qemu_thread_iter_partial:
  assumes "take k (rx_buffer s) = take k (wire_frame env proto P)" and "rx_buf_used s = k"
    and "k + length c < length P + 8" and "length P + 8 \<le> length (rx_buffer s)"
    and "c = take (length c) (drop k (wire_frame env proto P))"
    and "6 \<le> k + length c"
    and "length P \<le> QEMU_MAX_DATA_LEN env" and "length P < 65536"
  shows "\<exists>s'. qemu_thread_iter env c s = Inr (True, s') \<and>
              take (k + length c) (rx_buffer s') = take (k + length c) (wire_frame env proto P) \<and>
              rx_buf_used s' = k + length c \<and>
              length (rx_buffer s') = length (rx_buffer s) \<and>
              dispatched s' = dispatched s"
proof -
  let ?F = "wire_frame env proto P"
  from worker_append_prefix [of k s ?F c] assms(1-5)
  obtain s1 where s1: "(if length c \<noteq> 0
               then (case protocol_rx_buffer_append c s of
                       (rc, st') \<Rightarrow>
                         if rc < 0 then (True, protocol_rx_buffer_reset st') else (False, st'))
               else (False, s)) = (False, s1)"
    and p: "take (k + length c) (rx_buffer s1) = take (k + length c) ?F"
      "rx_buf_used s1 = k + length c" "length (rx_buffer s1) = length (rx_buffer s)"
      "dispatched s1 = dispatched s"
    by (auto simp: length_wire_frame)
  have h: "qemu_handle_packet env s1 =
      Inr (PACKET_MORE_DATA_REQD,
           LOG (More_Data_Required (of_nat (length P)) (k + length c)) s1)"
    by (rule qemu_handle_packet_partial [OF p(1) assms(6) assms(3) p(2) assms(7,8)])
  have "qemu_thread_iter env c s =
      Inr (True, LOG (More_Data_Required (of_nat (length P)) (k + length c)) s1)"
    unfolding qemu_thread_iter_def Let_def s1 by (simp add: h)
  with p show ?thesis by (simp add: LOG_def)
qed

lemma qemu_thread_iter_complete:
  assumes "take k (rx_buffer s) = take k (wire_frame env proto P)" and "rx_buf_used s = k"
    and "k + length c = length P + 8" and "length P + 8 \<le> length (rx_buffer s)"
    and "c = take (length c) (drop k (wire_frame env proto P))"
    and "length P \<le> QEMU_MAX_DATA_LEN env" and "length P < 65536"
    and "protocol_find_endpoint_handler proto (qemu_endpoints env) = Some h"
  shows "\<exists>s'. qemu_thread_iter env c s = Inr (True, s') \<and>
              dispatched s' = dispatched s @ [(h, P)]"
proof -
  let ?F = "wire_frame env proto P"
  from worker_append_prefix [of k s ?F c] assms(1-5)
  obtain s1 where s1: "(if length c \<noteq> 0
               then (case protocol_rx_buffer_append c s of
                       (rc, st') \<Rightarrow>
                         if rc < 0 then (True, protocol_rx_buffer_reset st') else (False, st'))
               else (False, s)) = (False, s1)"
    and p: "take (k + length c) (rx_buffer s1) = take (k + length c) ?F"
      "rx_buf_used s1 = k + length c" "length (rx_buffer s1) = length (rx_buffer s)"
      "dispatched s1 = dispatched s"
    by (auto simp: length_wire_frame)
  from p(1) assms(3) have "take (length ?F) (rx_buffer s1) = ?F"
    by (simp add: length_wire_frame)
  then have b: "rx_buffer s1 = ?F @ drop (length ?F) (rx_buffer s1)"
    by (metis append_take_drop_id)
  have u: "rx_buf_used s1 = length P + 8" using p(2) assms(3) by simp
  have d: "qemu_handle_packet env s1 =
      Inr (PACKET_PROCESSED,
           s1\<lparr>rx_buffer := P @ drop (length P) (rx_buffer s1),
              rx_buf_used := rx_buf_used s1 - 8,
              dispatched := dispatched s1 @ [(h, P)]\<rparr>)"
    using assms(6,7,8) u by (subst qemu_handle_packet_frame [OF b]) simp_all
  have "qemu_thread_iter env c s =
      Inr (True, s1\<lparr>rx_buffer := P @ drop (length P) (rx_buffer s1),
              rx_buf_used := rx_buf_used s1 - 8,
              dispatched := dispatched s1 @ [(h, P)]\<rparr>)"
    unfolding qemu_thread_iter_def Let_def s1 by (simp add: d)
  with p(4) show ?thesis by simp
qed

lemma feed_chunks_Cons:
  "qemu_thread_iter env c s = Inr (True, s') \<Longrightarrow>
     feed_chunks env (c # cs) s = feed_chunks env cs s'"
  by (simp add: feed_chunks_def hw_qemu_read_def)

lemma feed_chunks_Nil: "feed_chunks env [] s = Inr s"
  by (simp add: feed_chunks_def)

lemma feed_chunks_frame_from:
  assumes "length P \<le> QEMU_MAX_DATA_LEN env" and "length P < 65536"
    and "protocol_find_endpoint_handler proto (qemu_endpoints env) = Some h"
  shows "take k (rx_buffer s) = take k (wire_frame env proto P) \<Longrightarrow> rx_buf_used s = k \<Longrightarrow>
         length P + 8 \<le> length (rx_buffer s) \<Longrightarrow>
         concat cs = drop k (wire_frame env proto P) \<Longrightarrow> cs \<noteq> [] \<Longrightarrow> last cs \<noteq> [] \<Longrightarrow>
         6 \<le> k + length (hd cs) \<Longrightarrow>
         \<exists>s'. feed_chunks env cs s = Inr s' \<and> dispatched s' = dispatched s @ [(h, P)]"
proof (induction cs arbitrary: s k)
  case Nil
  then show ?case by simp
next
  case (Cons c cs)
  let ?F = "wire_frame env proto P"
  from Cons.prems(4) have cc: "c @ concat cs = drop k ?F" by simp
  then have c: "c = take (length c) (drop k ?F)"
    by (metis append_eq_conv_conj)
  from cc have rest: "concat cs = drop (k + length c) ?F"
    by (metis append_eq_conv_conj drop_drop add.commute)
  from cc have "length c + length (concat cs) = length ?F - k"
    by (metis length_append length_drop)
  show ?case
  proof (cases "cs = []")
    case True
    with Cons.prems(6) have "c \<noteq> []" by simp
    with cc True have "k + length c = length P + 8"
      by (metis \<open>length c + length (concat cs) = length ?F - k\<close> add.right_neutral
          add_diff_cancel_left' concat.simps(1) le_add_diff_inverse length_0_conv length_wire_frame
          list.size(3) nat_le_linear diff_is_0_eq)
    from qemu_thread_iter_complete [OF Cons.prems(1,2) this Cons.prems(3) c assms]
    obtain s' where "qemu_thread_iter env c s = Inr (True, s')"
      "dispatched s' = dispatched s @ [(h, P)]" by blast
    with True show ?thesis by (simp add: feed_chunks_Cons feed_chunks_Nil)
  next
    case False
    with Cons.prems(6) have l: "last cs \<noteq> []" by simp
    with False have "concat cs \<noteq> []"
      by (metis concat_append concat.simps append_butlast_last_id append_is_Nil_conv self_append_conv)
    with rest have lt: "k + length c < length P + 8"
      by (simp add: length_wire_frame)
    from Cons.prems(7) have six: "6 \<le> k + length c" by simp
    from qemu_thread_iter_partial [OF Cons.prems(1,2) lt Cons.prems(3) c six assms(1,2)]
    obtain s1 where i: "qemu_thread_iter env c s = Inr (True, s1)"
      and p: "take (k + length c) (rx_buffer s1) = take (k + length c) ?F"
        "rx_buf_used s1 = k + length c" "length (rx_buffer s1) = length (rx_buffer s)"
        "dispatched s1 = dispatched s"
      by blast
    from six have "6 \<le> k + length c + length (hd cs)" by simp
    from Cons.IH [OF p(1) p(2) _ rest False l this] Cons.prems(3) p(3)
    obtain s' where "feed_chunks env cs s1 = Inr s'" "dispatched s' = dispatched s1 @ [(h, P)]"
      by auto
    with i p(4) show ?thesis by (simp add: feed_chunks_Cons)
  qed
qed

text \<open>
  Claim C3, amended. For a stream that is one valid frame of at most 64 bytes (length
  within the cap, protocol with a handler) arriving in an empty receive buffer, and
  for every splitting of it into chunks in which the first chunk holds the six header
  bytes and the last chunk is not empty, feeding the chunks one wake-up at a time
  dispatches exactly what feeding the frame as one chunk dispatches: the payload of
  the frame, once.
\<close>

theorem chunking_single_frame:
  assumes "length P \<le> QEMU_MAX_DATA_LEN env"
    and "length (wire_frame env proto P) \<le> 64"
    and "protocol_find_endpoint_handler proto (qemu_endpoints env) = Some h"
    and "rx_buf_used st = 0"
    and "length (wire_frame env proto P) \<le> length (rx_buffer st)"
    and "concat cs = wire_frame env proto P"
    and "sizeof_QemuCommChannelHeader \<le> length (hd cs)" and "last cs \<noteq> []"
  shows "map_sum id dispatched (feed_chunks env cs st) =
           map_sum id dispatched (feed_chunks env [concat cs] st) \<and>
         map_sum id dispatched (feed_chunks env cs st) = Inr (dispatched st @ [(h, P)])"
proof -
  let ?F = "wire_frame env proto P"
  from assms(2) have l: "length P < 65536" by (simp add: length_wire_frame)
  have F: "?F \<noteq> []" by (simp add: wire_frame_def be16_def)
  with assms(6) have ne: "cs \<noteq> []" by auto
  have t: "take 0 (rx_buffer st) = take 0 ?F" by simp
  from assms(5) have cap: "length P + 8 \<le> length (rx_buffer st)"
    by (simp add: length_wire_frame)
  from assms(7) have six: "6 \<le> 0 + length (hd cs)"
    by (simp add: sizeof_QemuCommChannelHeader_def)
  from assms(6) have c: "concat cs = drop 0 ?F" by simp
  from feed_chunks_frame_from [OF assms(1) l assms(3) t assms(4) cap c ne assms(8) six]
  obtain s' where a: "feed_chunks env cs st = Inr s'" "dispatched s' = dispatched st @ [(h, P)]"
    by blast
  have c1: "concat [?F] = drop 0 ?F" by simp
  have six1: "6 \<le> 0 + length (hd [?F])" by (simp add: length_wire_frame)
  have "[?F] \<noteq> []" "last [?F] \<noteq> []" using F by simp_all
  from feed_chunks_frame_from [OF assms(1) l assms(3) t assms(4) cap c1 this six1]
  obtain s'' where b: "feed_chunks env [?F] st = Inr s''"
    "dispatched s'' = dispatched st @ [(h, P)]"
    by blast
  from a b show ?thesis by (simp add: assms(6))
qed

theorem chunking_single_frame_witness:
  "length ping \<le> QEMU_MAX_DATA_LEN (qemu_config0 True) \<and>
   length (wire_frame (qemu_config0 True) 1 ping) \<le> 64 \<and>
   protocol_find_endpoint_handler 1 (qemu_endpoints (qemu_config0 True)) = Some 1 \<and>
   rx_buf_used rx_state0 = 0 \<and>
   length (wire_frame (qemu_config0 True) 1 ping) \<le> length (rx_buffer rx_state0) \<and>
   concat [[0xFE, 0xED, 0, 1, 0, 4, 0x70], [], [0x69, 0x6E, 0x67, 0xBE, 0xEF]] =
     wire_frame (qemu_config0 True) 1 ping \<and>
   sizeof_QemuCommChannelHeader
     \<le> length (hd [[0xFE, 0xED, 0, 1, 0, 4, 0x70], [], [0x69, 0x6E, 0x67, 0xBE, 0xEF :: byte]]) \<and>
   last [[0xFE, 0xED, 0, 1, 0, 4, 0x70], [], [0x69, 0x6E, 0x67, 0xBE, 0xEF :: byte]] \<noteq> [] \<and>
   map_sum id dispatched
     (feed_chunks (qemu_config0 True)
        [[0xFE, 0xED, 0, 1, 0, 4, 0x70], [], [0x69, 0x6E, 0x67, 0xBE, 0xEF]] rx_state0) =
   map_sum id dispatched
     (feed_chunks (qemu_config0 True)
        [concat [[0xFE, 0xED, 0, 1, 0, 4, 0x70], [], [0x69, 0x6E, 0x67, 0xBE, 0xEF]]] rx_state0) \<and>
   map_sum id dispatched
     (feed_chunks (qemu_config0 True)
        [[0xFE, 0xED, 0, 1, 0, 4, 0x70], [], [0x69, 0x6E, 0x67, 0xBE, 0xEF]] rx_state0) =
   Inr (dispatched rx_state0 @ [(1, ping)])"
proof -
  let ?env = "qemu_config0 True"
  let ?cs = "[[0xFE, 0xED, 0, 1, 0, 4, 0x70], [], [0x69, 0x6E, 0x67, 0xBE, 0xEF :: byte]]"
  have h1: "length ping \<le> QEMU_MAX_DATA_LEN ?env" by code_simp
  have h2: "length (wire_frame ?env 1 ping) \<le> 64" by code_simp
  have h3: "protocol_find_endpoint_handler 1 (qemu_endpoints ?env) = Some 1" by code_simp
  have h4: "rx_buf_used rx_state0 = 0" by code_simp
  have h5: "length (wire_frame ?env 1 ping) \<le> length (rx_buffer rx_state0)" by code_simp
  have h6: "concat ?cs = wire_frame ?env 1 ping" by code_simp
  have h7: "sizeof_QemuCommChannelHeader \<le> length (hd ?cs)" by code_simp
  have h8: "last ?cs \<noteq> []" by code_simp
  from chunking_single_frame [OF h1 h2 h3 h4 h5 h6 h7 h8] h1 h2 h3 h4 h5 h6 h7 h8
  show ?thesis by blast
qed

section \<open>Inputs on which the decoder stops or rejects\<close>

text \<open>
  Claim C2. A complete frame with valid signatures whose protocol 9 has no entry in the
  endpoint table: \<^verbatim>\<open>_qemu_handle_packet\<close> writes "Unknown protocol", does not return
  there, strips the wrapper and then calls \<^verbatim>\<open>handler(p)\<close> with the null handler. The
  decode does not complete with a result, with \<^verbatim>\<open>assert\<close> compiled in or not, and the
  worker that received the frame stops with it.
\<close>

theorem unknown_protocol_null_call:
  "protocol_find_endpoint_handler 9 (qemu_endpoints (qemu_config0 True)) = None \<and>
   qemu_handle_packet (qemu_config0 True)
     (rx_with (wire_frame (qemu_config0 True) 9 ping @ replicate 52 0) 12) = Inl Null_handler_call \<and>
   qemu_handle_packet (qemu_config0 False)
     (rx_with (wire_frame (qemu_config0 False) 9 ping @ replicate 52 0) 12) = Inl Null_handler_call \<and>
   feed_chunks (qemu_config0 True) [wire_frame (qemu_config0 True) 9 ping] rx_state0
     = Inl Null_handler_call"
  by code_simp

text \<open>
  Claim C6. The first five bytes of a valid frame (protocol 1, 2048 payload bytes,
  length field \<open>0x0800\<close>) are in the buffer and the sixth byte of the array still
  holds \<open>0x01\<close> from a chunk that was rejected before. The decoder reads the length
  \<open>0x0801\<close>, above the cap, and returns \<^verbatim>\<open>PACKET_INVALID\<close> instead of
  \<^verbatim>\<open>PACKET_MORE_DATA_REQD\<close>; in the worker the five bytes are discarded by the reset
  that follows, so the used-length is 0 and not 5.
\<close>

theorem five_bytes_rejected:
  "take 5 (wire_frame (qemu_config0 True) 1 (replicate 2048 0)) = [0xFE, 0xED, 0, 1, 8] \<and>
   length (replicate 2048 (0 :: byte)) \<le> QEMU_MAX_DATA_LEN (qemu_config0 True) \<and>
   qemu_handle_packet (qemu_config0 True)
       (rx_with ([0xFE, 0xED, 0, 1, 8] @ 1 # replicate 58 0) 5) =
     Inr (PACKET_INVALID,
          LOG (Invalid_packet_size 0x0801)
            (rx_with ([0xFE, 0xED, 0, 1, 8] @ 1 # replicate 58 0) 5)) \<and>
   feed_chunks (qemu_config0 True) [[0, 0, 0, 0, 0, 1], [0xFE, 0xED, 0, 1, 8]] rx_state0 =
     Inr \<lparr>rx_buffer = [0xFE, 0xED, 0, 1, 8] @ 1 # replicate 58 0, rx_buf_used = 0,
          log = [Invalid_header_signature 0, Invalid_packet_size 0x0801], dispatched = []\<rparr>"
  by code_simp

text \<open>
  Claim C7. Two valid frames, each dispatched when it arrives alone, delivered by one
  read. With \<^verbatim>\<open>assert\<close> compiled in, the worker stops at the assertion while it
  consumes the first frame, before any handler is called. Without it, the first
  payload is dispatched and \<^verbatim>\<open>PACKET_BUFFER_HAS_DATA\<close> is returned, but the payload
  stays at the front of the buffer: the next call of the decoder reads \<open>pi\<close> as a
  signature, rejects, and the buffer is reset with the second frame in it. The second
  payload is not dispatched.
\<close>

theorem two_frames_one_read:
  "map_sum id dispatched
     (feed_chunks (qemu_config0 True) [wire_frame (qemu_config0 True) 1 ping] rx_state0)
     = Inr [(1, ping)] \<and>
   map_sum id dispatched
     (feed_chunks (qemu_config0 True) [wire_frame (qemu_config0 True) 1 [1, 2, 3]] rx_state0)
     = Inr [(1, [1, 2, 3])] \<and>
   qemu_thread_loop (qemu_config0 True)
     [wire_frame (qemu_config0 True) 1 ping @ wire_frame (qemu_config0 True) 1 [1, 2, 3]]
     rx_state0 = Inl Assertion_failed \<and>
   map_sum id dispatched
     (qemu_thread_loop (qemu_config0 False)
        [wire_frame (qemu_config0 False) 1 ping @ wire_frame (qemu_config0 False) 1 [1, 2, 3]]
        rx_state0) = Inr [(1, ping)] \<and>
   map_sum id log
     (qemu_thread_loop (qemu_config0 False)
        [wire_frame (qemu_config0 False) 1 ping @ wire_frame (qemu_config0 False) 1 [1, 2, 3]]
        rx_state0) = Inr [Invalid_header_signature 0x7069]"
  by code_simp

text \<open>
  Claim C8. The buffer holds a fully valid frame with four payload bytes followed by
  further bytes (a second frame), 23 bytes in use. After the compaction the
  used-length is 15, not the declared payload length 4, and the assertion
  \<^verbatim>\<open>protocol_get_rx_buf_used() == header.len\<close> fails on the successful-decode path.
\<close>

theorem assertion_fires_with_more_data:
  "qemu_handle_packet (qemu_config0 True)
     (rx_with (wire_frame (qemu_config0 True) 1 ping @ wire_frame (qemu_config0 True) 1 [1, 2, 3]
                 @ replicate 41 0) 23) = Inl Assertion_failed \<and>
   map_sum id (rx_buf_used \<circ> snd)
     (qemu_handle_packet (qemu_config0 False)
        (rx_with (wire_frame (qemu_config0 False) 1 ping @ wire_frame (qemu_config0 False) 1 [1, 2, 3]
                    @ replicate 41 0) 23)) = Inr 15 \<and>
   len (qemu_read_header
     (rx_with (wire_frame (qemu_config0 True) 1 ping @ wire_frame (qemu_config0 True) 1 [1, 2, 3]
                 @ replicate 41 0) 23)) = 4"
  by code_simp

end
